theory Spec2Isabelle
  imports Complex_Main "HOL-Library.Multiset"
begin

section \<open>Array values\<close>

text \<open>
  The notebooks compute on numpy/xarray floating-point arrays. An array element is
  modelled by its IEEE class: not-a-number, the two infinities, or a finite number.
  Finite numbers are exact rationals: rounding, overflow and the sign of zero are not
  modelled. The special values follow IEEE 754 as numpy applies it (a division by zero
  yields an infinity or NaN and raises nothing; every comparison with NaN is false).
  Integer arrays (raw digital numbers, pixel counts) are embedded as finite values.
\<close>

datatype npfloat = NaN | PInf | NInf | Fin rat

fun is_nan :: "npfloat \<Rightarrow> bool" where
  "is_nan NaN = True"
| "is_nan _ = False"

text \<open>The sign of a non-NaN value, and the infinity (or NaN, for 0) of a given sign.\<close>

fun fsgn :: "npfloat \<Rightarrow> rat" where
  "fsgn NaN = 0"
| "fsgn PInf = 1"
| "fsgn NInf = - 1"
| "fsgn (Fin a) = sgn a"

definition inf_of_sign :: "rat \<Rightarrow> npfloat" where
  "inf_of_sign s = (if 0 < s then PInf else if s < 0 then NInf else NaN)"

fun fneg :: "npfloat \<Rightarrow> npfloat" where
  "fneg NaN = NaN"
| "fneg PInf = NInf"
| "fneg NInf = PInf"
| "fneg (Fin a) = Fin (- a)"

fun fadd :: "npfloat \<Rightarrow> npfloat \<Rightarrow> npfloat" where
  "fadd NaN y = NaN"
| "fadd (Fin a) NaN = NaN"
| "fadd (Fin a) PInf = PInf"
| "fadd (Fin a) NInf = NInf"
| "fadd (Fin a) (Fin b) = Fin (a + b)"
| "fadd PInf NaN = NaN"
| "fadd PInf PInf = PInf"
| "fadd PInf NInf = NaN"
| "fadd PInf (Fin b) = PInf"
| "fadd NInf NaN = NaN"
| "fadd NInf PInf = NaN"
| "fadd NInf NInf = NInf"
| "fadd NInf (Fin b) = NInf"

definition fsub :: "npfloat \<Rightarrow> npfloat \<Rightarrow> npfloat" where
  "fsub x y = fadd x (fneg y)"

fun fmul :: "npfloat \<Rightarrow> npfloat \<Rightarrow> npfloat" where
  "fmul NaN y = NaN"
| "fmul (Fin a) NaN = NaN"
| "fmul PInf NaN = NaN"
| "fmul NInf NaN = NaN"
| "fmul (Fin a) (Fin b) = Fin (a * b)"
| "fmul (Fin a) PInf = inf_of_sign (sgn a)"
| "fmul (Fin a) NInf = inf_of_sign (- sgn a)"
| "fmul PInf y = inf_of_sign (fsgn y)"
| "fmul NInf y = inf_of_sign (- fsgn y)"

text \<open>
  Division: a finite number over zero is an infinity with the sign of the numerator, and
  \<open>0 / 0\<close> is NaN; a finite number over an infinity is 0; an infinity over an infinity is
  NaN.
\<close>

fun fdiv :: "npfloat \<Rightarrow> npfloat \<Rightarrow> npfloat" where
  "fdiv NaN y = NaN"
| "fdiv (Fin a) NaN = NaN"
| "fdiv PInf NaN = NaN"
| "fdiv NInf NaN = NaN"
| "fdiv (Fin a) (Fin b) = (if b = 0 then inf_of_sign (sgn a) else Fin (a / b))"
| "fdiv (Fin a) PInf = Fin 0"
| "fdiv (Fin a) NInf = Fin 0"
| "fdiv PInf (Fin b) = (if 0 \<le> b then PInf else NInf)"
| "fdiv NInf (Fin b) = (if 0 \<le> b then NInf else PInf)"
| "fdiv PInf PInf = NaN"
| "fdiv PInf NInf = NaN"
| "fdiv NInf PInf = NaN"
| "fdiv NInf NInf = NaN"

text \<open>Comparisons: false as soon as an operand is NaN.\<close>

fun fle :: "npfloat \<Rightarrow> npfloat \<Rightarrow> bool" where
  "fle NaN y = False"
| "fle (Fin a) NaN = False"
| "fle PInf NaN = False"
| "fle NInf NaN = False"
| "fle (Fin a) (Fin b) = (a \<le> b)"
| "fle (Fin a) PInf = True"
| "fle (Fin a) NInf = False"
| "fle PInf PInf = True"
| "fle PInf NInf = False"
| "fle PInf (Fin b) = False"
| "fle NInf y = True"

fun flt :: "npfloat \<Rightarrow> npfloat \<Rightarrow> bool" where
  "flt NaN y = False"
| "flt (Fin a) NaN = False"
| "flt PInf y = False"
| "flt NInf NaN = False"
| "flt (Fin a) (Fin b) = (a < b)"
| "flt (Fin a) PInf = True"
| "flt (Fin a) NInf = False"
| "flt NInf NInf = False"
| "flt NInf PInf = True"
| "flt NInf (Fin b) = True"

definition fge :: "npfloat \<Rightarrow> npfloat \<Rightarrow> bool" where
  "fge x y = fle y x"

definition fgt :: "npfloat \<Rightarrow> npfloat \<Rightarrow> bool" where
  "fgt x y = flt y x"

text \<open>\<open>a.where(cond)\<close>: the element where the condition holds, NaN elsewhere.\<close>

definition where_f :: "npfloat \<Rightarrow> bool \<Rightarrow> npfloat" where
  "where_f v c = (if c then v else NaN)"

section \<open>Labelled arrays\<close>

text \<open>
  An xarray \<open>DataArray\<close> over the dimensions (time, y, x): the time coordinate, the sizes
  of the two spatial axes, and the element at each index. A \<open>Dataset\<close> is a set of named
  variables over one shared set of coordinates.
\<close>

record 'a dataarray =
  time :: "int list"
  ny :: nat
  nx :: nat
  item :: "nat \<Rightarrow> nat \<Rightarrow> nat \<Rightarrow> 'a"

record dataset =
  ds_time :: "int list"
  ds_ny :: nat
  ds_nx :: nat
  ds_vars :: "string \<rightharpoonup> (nat \<Rightarrow> nat \<Rightarrow> nat \<Rightarrow> npfloat)"

datatype error = IndexError | KeyError | AttributeError | UnknownCategoryError

text \<open>
  Indexing the time axis with a boolean vector (\<open>.sel(time=keep)\<close>): the positions where
  the vector is true, in their order; a vector of another length is an IndexError.
\<close>

definition kept_steps :: "bool list \<Rightarrow> nat list" where
  "kept_steps keep = filter (\<lambda>t. keep ! t) [0..<length keep]"

definition sel_time :: "bool list \<Rightarrow> 'a dataarray \<Rightarrow> error + 'a dataarray" where
  "sel_time keep a =
     (if length keep \<noteq> length (time a) then Inl IndexError
      else Inr (a\<lparr>time := map (\<lambda>t. time a ! t) (kept_steps keep),
                  item := (\<lambda>i. item a (kept_steps keep ! i))\<rparr>))"

definition ds_sel_time :: "bool list \<Rightarrow> dataset \<Rightarrow> error + dataset" where
  "ds_sel_time keep ds =
     (if length keep \<noteq> length (ds_time ds) then Inl IndexError
      else Inr (ds\<lparr>ds_time := map (\<lambda>t. ds_time ds ! t) (kept_steps keep),
                   ds_vars := (\<lambda>n. map_option (\<lambda>f i. f (kept_steps keep ! i)) (ds_vars ds n))\<rparr>))"

section \<open>Dropping low quality time slices\<close>

text \<open>
  \<^verbatim>\<open>data_perc = good_pixel_mask.sum(axis=[1,2]) / (good_pixel_mask.shape[1]*good_pixel_mask.shape[2])\<close>
  \<^verbatim>\<open>keep = (data_perc>=min_gooddata)\<close>
  \<^verbatim>\<open>ds_s2 = ds_s2.sel(time=keep)\<close>
  \<^verbatim>\<open>good_pixel_mask = good_pixel_mask.sel(time=keep)\<close>
\<close>

definition sum_yx :: "bool dataarray \<Rightarrow> nat \<Rightarrow> nat" where
  "sum_yx m t = sum_list (map (\<lambda>y. sum_list (map (\<lambda>x. if item m t y x then 1 else 0) [0..<nx m])) [0..<ny m])"

definition good_fraction :: "bool dataarray \<Rightarrow> nat \<Rightarrow> npfloat" where
  "good_fraction m t = fdiv (Fin (of_nat (sum_yx m t))) (Fin (of_nat (ny m * nx m)))"

definition data_perc :: "bool dataarray \<Rightarrow> npfloat list" where
  "data_perc m = map (good_fraction m) [0..<length (time m)]"

definition keep_vec :: "npfloat \<Rightarrow> bool dataarray \<Rightarrow> bool list" where
  "keep_vec min_gooddata m = map (\<lambda>p. fge p min_gooddata) (data_perc m)"

definition time_step_filter ::
  "npfloat \<Rightarrow> dataset \<Rightarrow> bool dataarray \<Rightarrow> error + (dataset \<times> bool dataarray)" where
  "time_step_filter min_gooddata ds good_pixel_mask =
     (let keep = keep_vec min_gooddata good_pixel_mask in
      case ds_sel_time keep ds of
        Inl e \<Rightarrow> Inl e
      | Inr ds' \<Rightarrow>
          (case sel_time keep good_pixel_mask of
             Inl e \<Rightarrow> Inl e
           | Inr mask' \<Rightarrow> Inr (ds', mask')))"

text \<open>A four-step cube on a 2 x 5 grid: nine good pixels out of ten at steps 0 and 2, one at steps 1 and 3.\<close>

definition ex_mask :: "bool dataarray" where
  "ex_mask = \<lparr>time = [0, 1, 2, 3], ny = 2, nx = 5,
              item = (\<lambda>t y x. if even t then \<not> (y = 1 \<and> x = 4) else (y = 0 \<and> x = 0))\<rparr>"

definition ex_ds :: dataset where
  "ex_ds = \<lparr>ds_time = [0, 1, 2, 3], ds_ny = 2, ds_nx = 5,
            ds_vars = [''red'' \<mapsto> (\<lambda>t y x. Fin (of_nat t))]\<rparr>"

section \<open>Applying the masks and the scaling\<close>

text \<open>
  \<^verbatim>\<open>valid_mask = masking.valid_data_mask(ds_s2)\<close>
  \<^verbatim>\<open>scale = 0.0001; offset = 0.0\<close>
  \<^verbatim>\<open>ds_s2['red'] = ds_s2['red'].where(valid_mask['red'] & good_pixel_mask) * scale + offset\<close>
  and the same line for \<open>red_edge_1\<close>, \<open>green\<close>, \<open>blue\<close> and \<open>swir_2\<close>. The validity masks
  are an input: one boolean array per band.
\<close>

definition clean_px :: "npfloat \<Rightarrow> npfloat \<Rightarrow> npfloat \<Rightarrow> bool \<Rightarrow> bool \<Rightarrow> npfloat" where
  "clean_px scale offset v valid good = fadd (fmul (where_f v (valid \<and> good)) scale) offset"

definition clean_band ::
  "npfloat \<Rightarrow> npfloat \<Rightarrow> (string \<rightharpoonup> (nat \<Rightarrow> nat \<Rightarrow> nat \<Rightarrow> bool)) \<Rightarrow> bool dataarray \<Rightarrow>
   string \<Rightarrow> dataset \<Rightarrow> error + dataset" where
  "clean_band scale offset valid_mask good_pixel_mask b ds =
     (case ds_vars ds b of
        None \<Rightarrow> Inl KeyError
      | Some band \<Rightarrow>
          (case valid_mask b of
             None \<Rightarrow> Inl KeyError
           | Some valid \<Rightarrow>
               Inr (ds\<lparr>ds_vars := (ds_vars ds)(b \<mapsto>
                      (\<lambda>t y x. clean_px scale offset (band t y x) (valid t y x)
                                  (item good_pixel_mask t y x)))\<rparr>)))"

fun clean_bands ::
  "npfloat \<Rightarrow> npfloat \<Rightarrow> (string \<rightharpoonup> (nat \<Rightarrow> nat \<Rightarrow> nat \<Rightarrow> bool)) \<Rightarrow> bool dataarray \<Rightarrow>
   string list \<Rightarrow> dataset \<Rightarrow> error + dataset" where
  "clean_bands scale offset valid_mask good_pixel_mask [] ds = Inr ds"
| "clean_bands scale offset valid_mask good_pixel_mask (b # bs) ds =
     (case clean_band scale offset valid_mask good_pixel_mask b ds of
        Inl e \<Rightarrow> Inl e
      | Inr ds' \<Rightarrow> clean_bands scale offset valid_mask good_pixel_mask bs ds')"

definition band_names :: "string list" where
  "band_names = [''red_edge_1'', ''red'', ''green'', ''blue'', ''swir_2'']"

definition scale :: npfloat where
  "scale = Fin (1 / 10000)"

definition offset :: npfloat where
  "offset = Fin 0"

definition scaled_masked_array ::
  "(string \<rightharpoonup> (nat \<Rightarrow> nat \<Rightarrow> nat \<Rightarrow> bool)) \<Rightarrow> bool dataarray \<Rightarrow> dataset \<Rightarrow> error + dataset" where
  "scaled_masked_array valid_mask good_pixel_mask ds =
     clean_bands scale offset valid_mask good_pixel_mask band_names ds"

section \<open>Band indices\<close>

text \<open>
  \<^verbatim>\<open>ds_s2['MNDWI'] = ( (ds_s2.green - ds_s2.swir_2) / (ds_s2.green + ds_s2.swir_2) )\<close>
  \<^verbatim>\<open>ds_s2['NDCI'] = ( (ds_s2.red_edge_1 - ds_s2.red) / (ds_s2.red_edge_1 + ds_s2.red) )\<close>
\<close>

definition norm_diff :: "npfloat \<Rightarrow> npfloat \<Rightarrow> npfloat" where
  "norm_diff a b = fdiv (fsub a b) (fadd a b)"

definition assign_norm_diff :: "string \<Rightarrow> string \<Rightarrow> string \<Rightarrow> dataset \<Rightarrow> error + dataset" where
  "assign_norm_diff name a b ds =
     (case ds_vars ds a of
        None \<Rightarrow> Inl AttributeError
      | Some fa \<Rightarrow>
          (case ds_vars ds b of
             None \<Rightarrow> Inl AttributeError
           | Some fb \<Rightarrow>
               Inr (ds\<lparr>ds_vars := (ds_vars ds)(name \<mapsto>
                      (\<lambda>t y x. norm_diff (fa t y x) (fb t y x)))\<rparr>)))"

definition band_indices :: "dataset \<Rightarrow> error + dataset" where
  "band_indices ds =
     (case assign_norm_diff ''MNDWI'' ''green'' ''swir_2'' ds of
        Inl e \<Rightarrow> Inl e
      | Inr ds' \<Rightarrow> assign_norm_diff ''NDCI'' ''red_edge_1'' ''red'' ds')"

section \<open>Water pixels, water count and average NDCI\<close>

text \<open>
  \<^verbatim>\<open>ds_s2_water = ds_s2.where(ds_s2.MNDWI>0.0)\<close>
  \<^verbatim>\<open>ds_s2_watercount = ds_s2_water.MNDWI.count(dim=["x", "y"])\<close>
  \<^verbatim>\<open>average_ndci = ds_s2_water.NDCI.mean(dim=["x", "y"], skipna=True)\<close>
  \<open>count\<close> counts the elements that are not NaN; the NaN-skipping mean adds the elements
  that are not NaN (a NaN counts as 0) and divides by their number.
\<close>

definition ds_s2_water :: "dataset \<Rightarrow> error + dataset" where
  "ds_s2_water ds =
     (case ds_vars ds ''MNDWI'' of
        None \<Rightarrow> Inl AttributeError
      | Some w \<Rightarrow>
          Inr (ds\<lparr>ds_vars := (\<lambda>n. map_option
                 (\<lambda>f t y x. where_f (f t y x) (fgt (w t y x) (Fin 0))) (ds_vars ds n))\<rparr>))"

definition pixels :: "nat \<Rightarrow> nat \<Rightarrow> (nat \<times> nat) list" where
  "pixels h w = concat (map (\<lambda>y. map (\<lambda>x. (y, x)) [0..<w]) [0..<h])"

definition count_yx :: "(nat \<Rightarrow> nat \<Rightarrow> nat \<Rightarrow> npfloat) \<Rightarrow> nat \<Rightarrow> nat \<Rightarrow> nat \<Rightarrow> nat" where
  "count_yx f h w t = sum_list (map (\<lambda>(y, x). if is_nan (f t y x) then 0 else 1) (pixels h w))"

definition nansum_yx :: "(nat \<Rightarrow> nat \<Rightarrow> nat \<Rightarrow> npfloat) \<Rightarrow> nat \<Rightarrow> nat \<Rightarrow> nat \<Rightarrow> npfloat" where
  "nansum_yx f h w t =
     foldl fadd (Fin 0) (map (\<lambda>(y, x). if is_nan (f t y x) then Fin 0 else f t y x) (pixels h w))"

definition nanmean_yx :: "(nat \<Rightarrow> nat \<Rightarrow> nat \<Rightarrow> npfloat) \<Rightarrow> nat \<Rightarrow> nat \<Rightarrow> nat \<Rightarrow> npfloat" where
  "nanmean_yx f h w t = fdiv (nansum_yx f h w t) (Fin (of_nat (count_yx f h w t)))"

definition ds_s2_watercount :: "dataset \<Rightarrow> error + nat list" where
  "ds_s2_watercount ds =
     (case ds_s2_water ds of
        Inl e \<Rightarrow> Inl e
      | Inr water \<Rightarrow>
          (case ds_vars water ''MNDWI'' of
             None \<Rightarrow> Inl AttributeError
           | Some f \<Rightarrow> Inr (map (count_yx f (ds_ny water) (ds_nx water)) [0..<length (ds_time water)])))"

definition average_ndci :: "dataset \<Rightarrow> error + npfloat list" where
  "average_ndci ds =
     (case ds_s2_water ds of
        Inl e \<Rightarrow> Inl e
      | Inr water \<Rightarrow>
          (case ds_vars water ''NDCI'' of
             None \<Rightarrow> Inl AttributeError
           | Some f \<Rightarrow> Inr (map (nanmean_yx f (ds_ny water) (ds_nx water)) [0..<length (ds_time water)])))"

section \<open>Percentage of clear observations per pixel\<close>

text \<open>
  \<^verbatim>\<open>valid_sum = valid_mask.sum(dim='time')\<close>
  \<^verbatim>\<open>clear_sum = clear_mask.sum(dim='time')\<close>
  \<^verbatim>\<open>percentage_clear = 100.0 * clear_sum / valid_sum\<close>
  \<^verbatim>\<open>percentage_clear = percentage_clear.where(percentage_clear<=100.0)\<close>
\<close>

definition sum_time :: "bool dataarray \<Rightarrow> nat \<Rightarrow> nat \<Rightarrow> nat" where
  "sum_time m y x = sum_list (map (\<lambda>t. if item m t y x then 1 else 0) [0..<length (time m)])"

definition percentage_clear_raw :: "bool dataarray \<Rightarrow> bool dataarray \<Rightarrow> nat \<Rightarrow> nat \<Rightarrow> npfloat" where
  "percentage_clear_raw clear_mask valid_mask y x =
     fdiv (fmul (Fin 100) (Fin (of_nat (sum_time clear_mask y x))))
          (Fin (of_nat (sum_time valid_mask y x)))"

definition percentage_clear :: "bool dataarray \<Rightarrow> bool dataarray \<Rightarrow> nat \<Rightarrow> nat \<Rightarrow> npfloat" where
  "percentage_clear clear_mask valid_mask y x =
     (let p = percentage_clear_raw clear_mask valid_mask y x in where_f p (fle p (Fin 100)))"

text \<open>A one-pixel series of four dates, described by the dates at which the pixel is set.\<close>

definition px_series :: "nat list \<Rightarrow> bool dataarray" where
  "px_series ts = \<lparr>time = [0, 1, 2, 3], ny = 1, nx = 1, item = (\<lambda>t y x. t \<in> set ts)\<rparr>"

text \<open>
  One date on a 1 x 2 grid: every band holds the raw value 10000 and is valid; the quality
  mask accepts the first pixel and rejects the second.
\<close>

definition ex_raw :: dataset where
  "ex_raw = \<lparr>ds_time = [0], ds_ny = 1, ds_nx = 2,
             ds_vars = (\<lambda>n. if n \<in> set band_names then Some (\<lambda>t y x. Fin 10000) else None)\<rparr>"

definition ex_valid :: "string \<rightharpoonup> (nat \<Rightarrow> nat \<Rightarrow> nat \<Rightarrow> bool)" where
  "ex_valid = (\<lambda>n. if n \<in> set band_names then Some (\<lambda>t y x. True) else None)"

definition ex_good :: "bool dataarray" where
  "ex_good = \<lparr>time = [0], ny = 1, nx = 2, item = (\<lambda>t y x. x = 0)\<rparr>"

text \<open>One date, one pixel: green 3 and swir 1, red edge 1 and red 3.\<close>

definition ex_bands :: dataset where
  "ex_bands = \<lparr>ds_time = [0], ds_ny = 1, ds_nx = 1,
               ds_vars = [''green'' \<mapsto> (\<lambda>t y x. Fin 3), ''swir_2'' \<mapsto> (\<lambda>t y x. Fin 1),
                          ''red_edge_1'' \<mapsto> (\<lambda>t y x. Fin 1), ''red'' \<mapsto> (\<lambda>t y x. Fin 3)]\<rparr>"

text \<open>
  One date on a 1 x 3 grid: MNDWI is 1/2, -1/2 and NaN. One date on a 1 x 2 grid: both
  pixels have MNDWI 1/2, and the NDCI of the first is NaN.
\<close>

definition ex_lake_mndwi :: "nat \<Rightarrow> nat \<Rightarrow> nat \<Rightarrow> npfloat" where
  "ex_lake_mndwi t y x = (if x = 0 then Fin (1 / 2) else if x = 1 then Fin (- (1 / 2)) else NaN)"

definition ex_lake_ndci :: "nat \<Rightarrow> nat \<Rightarrow> nat \<Rightarrow> npfloat" where
  "ex_lake_ndci t y x = (if x = 0 then Fin (1 / 5) else if x = 1 then Fin (3 / 5) else Fin (2 / 5))"

definition ex_lake :: dataset where
  "ex_lake = \<lparr>ds_time = [0], ds_ny = 1, ds_nx = 3,
              ds_vars = [''MNDWI'' \<mapsto> ex_lake_mndwi, ''NDCI'' \<mapsto> ex_lake_ndci]\<rparr>"

definition ex_water_ndci :: "nat \<Rightarrow> nat \<Rightarrow> nat \<Rightarrow> npfloat" where
  "ex_water_ndci t y x = (if x = 0 then NaN else Fin (1 / 5))"

definition ex_water :: dataset where
  "ex_water = \<lparr>ds_time = [0], ds_ny = 1, ds_nx = 2,
               ds_vars = [''MNDWI'' \<mapsto> (\<lambda>t y x. Fin (1 / 2)), ''NDCI'' \<mapsto> ex_water_ndci]\<rparr>"

section \<open>Rolling median\<close>

text \<open>
  Modelled from the spec: insertion of a sample into an ascending list of samples. The
  rolling median is xarray's \<open>rolling(...).median\<close>, which the notebooks call and do not
  define; the spec (4.7) asks for the median of the available samples.
\<close>

fun insert_f :: "npfloat \<Rightarrow> npfloat list \<Rightarrow> npfloat list" where
  "insert_f v [] = [v]"
| "insert_f v (u # us) = (if fle v u then v # u # us else u # insert_f v us)"

text \<open>
  Modelled from the spec: the samples in ascending order (the library's sort is not in
  the notebooks).
\<close>

definition sort_f :: "npfloat list \<Rightarrow> npfloat list" where
  "sort_f vs = foldr insert_f vs []"

text \<open>
  Modelled from the spec: the median of a list of samples (the library's median is not in
  the notebooks): the middle sample in ascending order, the mean of the two middle ones
  when their number is even (the spec's example: the median of 1 and 3 is 2), and NaN
  when there is no sample.
\<close>

definition median_f :: "npfloat list \<Rightarrow> npfloat" where
  "median_f vs =
     (let s = sort_f vs; n = length s in
      if n = 0 then NaN
      else if odd n then s ! (n div 2)
      else fdiv (fadd (s ! (n div 2 - 1)) (s ! (n div 2))) (Fin 2))"

text \<open>
  Modelled from the spec: the centered window of odd size w at position i (the library's
  windowing is not in the notebooks): the positions from i - w div 2 to i + w div 2 that
  exist; at the boundary of the series the window is shorter.
\<close>

definition window :: "nat \<Rightarrow> npfloat list \<Rightarrow> nat \<Rightarrow> npfloat list" where
  "window w xs i = map (\<lambda>j. xs ! j) [i - w div 2..<min (length xs) (i + w div 2 + 1)]"

text \<open>
  Modelled from the spec: the centered rolling median with window size w and minimum
  number of periods m (xarray's, called and not defined by the notebooks). The spec's
  words: compute the median over whatever samples are available in the window, provided
  at least m are present, else the output is NaN at that position; the edges are never
  dropped. A NaN is a missing sample.
\<close>

definition rolling_median :: "nat \<Rightarrow> nat \<Rightarrow> npfloat list \<Rightarrow> npfloat list" where
  "rolling_median w m xs =
     map (\<lambda>i. let samples = filter (\<lambda>v. \<not> is_nan v) (window w xs i)
              in if m \<le> length samples then median_f samples else NaN)
       [0..<length xs]"

text \<open>
  The call of the notebooks, on the water count of each time step:
  \<^verbatim>\<open>ds_s2_watercount.rolling(time=3, center=True, min_periods=1).median(skipna=True)\<close>
\<close>

definition waterarea_median :: "nat list \<Rightarrow> npfloat list" where
  "waterarea_median watercount = rolling_median 3 1 (map (\<lambda>n. Fin (of_nat n)) watercount)"

section \<open>Categorical quality mask\<close>

text \<open>
  The dataset's enumeration of quality categories: each code with its label.
\<close>

type_synonym enumeration = "(nat \<times> string) list"

text \<open>
  Modelled from the spec: \<open>enum_to_bool\<close> is imported from \<open>odc.algo\<close>; the notebooks call it
  (\<^verbatim>\<open>good_pixel_mask = enum_to_bool(ds_s2['mask'], good_pixel_flags)\<close>) and do not
  define it. The spec's words (4.2): the input is the array of quality codes and a set
  of acceptable category labels; the output mask is true where the pixel's category is
  in the acceptable set; the construction fails with an UnknownCategoryError if a
  requested label is not part of the enumeration used by the dataset.
\<close>

definition enum_to_bool :: "enumeration \<Rightarrow> nat dataarray \<Rightarrow> string set \<Rightarrow> error + bool dataarray" where
  "enum_to_bool enum qa categories =
     (if \<not> categories \<subseteq> snd ` set enum then Inl UnknownCategoryError
      else Inr \<lparr>time = time qa, ny = ny qa, nx = nx qa,
                item = (\<lambda>t y x. \<exists>(c, l) \<in> set enum. c = item qa t y x \<and> l \<in> categories)\<rparr>)"

text \<open>A Sentinel-2 style scene classification, and a 1 x 3 scene of water, cloud and vegetation.\<close>

definition scl :: enumeration where
  "scl = [(0, ''no data''), (4, ''vegetation''), (6, ''water''), (9, ''cloud high probability''),
          (11, ''snow or ice'')]"

definition ex_codes :: "nat dataarray" where
  "ex_codes = \<lparr>time = [0], ny = 1, nx = 3,
               item = (\<lambda>t y x. if x = 0 then 6 else if x = 1 then 9 else 4)\<rparr>"

section \<open>Properties\<close>

subsection \<open>The time step filter\<close>

lemma kept_steps_map:
  "kept_steps (map f [0..<n]) = filter f [0..<n]"
  unfolding kept_steps_def by (rule filter_cong) simp_all

lemma sum_list_indicator_card:
  "sum_list (map (\<lambda>x. if P x then 1 else 0) [0..<n]) = card {x. x < n \<and> P x}"
proof (induction n)
  case 0
  then show ?case by simp
next
  case (Suc n)
  have fin: "finite {x. x < n \<and> P x}" by simp
  show ?case
  proof (cases "P n")
    case True
    then have "{x. x < Suc n \<and> P x} = insert n {x. x < n \<and> P x}"
      by (auto simp: less_Suc_eq)
    with Suc fin True show ?thesis by simp
  next
    case False
    then have "{x. x < Suc n \<and> P x} = {x. x < n \<and> P x}"
      by (auto simp: less_Suc_eq)
    with Suc False show ?thesis by simp
  qed
qed

lemma sum_list_rows_card:
  "sum_list (map (\<lambda>y. card {x. x < (w::nat) \<and> P y x}) [0..<h]) = card {(y, x). y < h \<and> x < w \<and> P y x}"
proof (induction h)
  case 0
  then show ?case by simp
next
  case (Suc h)
  let ?A = "{(y, x). y < h \<and> x < w \<and> P y x}"
  let ?B = "(\<lambda>x. (h, x)) ` {x. x < w \<and> P h x}"
  have split: "{(y, x). y < Suc h \<and> x < w \<and> P y x} = ?A \<union> ?B"
    by (auto simp: less_Suc_eq)
  have "?A \<subseteq> {..<h} \<times> {..<w}" by auto
  moreover have "finite ({..<h} \<times> {..<w})" by (intro finite_cartesian_product finite_lessThan)
  ultimately have finA: "finite ?A" by (rule finite_subset)
  have finB: "finite ?B" by simp
  have disj: "?A \<inter> ?B = {}" by auto
  have cardB: "card ?B = card {x. x < w \<and> P h x}"
    by (rule card_image) (simp add: inj_on_def)
  show ?case
    using Suc by (simp add: split card_Un_disjoint [OF finA finB disj] cardB)
qed

lemma sum_yx_card:
  "sum_yx m t = card {(y, x). y < ny m \<and> x < nx m \<and> item m t y x}"
  unfolding sum_yx_def by (simp add: sum_list_indicator_card sum_list_rows_card)

lemma keep_vec_steps:
  "kept_steps (keep_vec tau m) = filter (\<lambda>t. fge (good_fraction m t) tau) [0..<length (time m)]"
  unfolding keep_vec_def data_perc_def by (simp add: kept_steps_map o_def)

lemma length_keep_vec: "length (keep_vec tau m) = length (time m)"
  by (simp add: keep_vec_def data_perc_def)

lemma ex_data_perc:
  "data_perc ex_mask = [Fin (9/10), Fin (1/10), Fin (9/10), Fin (1/10)]"
  by (simp add: data_perc_def good_fraction_def sum_yx_def ex_mask_def upt_conv_Cons)

lemma ex_kept:
  "filter (\<lambda>t. fge (good_fraction ex_mask t) (Fin (1/2))) [0..<length (time ex_mask)] = [0, 2]"
  by code_simp

text \<open>
  Claim C1. When the dataset and the quality mask have the same number of time steps,
  the filter succeeds; the retained steps are the steps whose good fraction is at least
  the threshold, in their original order; the dataset's variables and the quality mask
  are both restricted to these steps, the spatial axes are unchanged; and the good
  fraction of a step is the number of true pixels of the step divided by the number of
  pixels (height times width).
\<close>

theorem time_step_filter_retains:
  assumes "length (ds_time ds) = length (time m)"
  shows "\<exists>ds' m'.
      time_step_filter tau ds m = Inr (ds', m') \<and>
      (let kept = filter (\<lambda>t. fge (good_fraction m t) tau) [0..<length (time m)] in
         ds_time ds' = map (\<lambda>t. ds_time ds ! t) kept \<and>
         time m' = map (\<lambda>t. time m ! t) kept \<and>
         ds_ny ds' = ds_ny ds \<and> ds_nx ds' = ds_nx ds \<and> ny m' = ny m \<and> nx m' = nx m \<and>
         (\<forall>i y x. item m' i y x = item m (kept ! i) y x) \<and>
         (\<forall>n. ds_vars ds' n = map_option (\<lambda>f i. f (kept ! i)) (ds_vars ds n))) \<and>
      (\<forall>t. good_fraction m t =
           fdiv (Fin (of_nat (card {(y, x). y < ny m \<and> x < nx m \<and> item m t y x})))
                (Fin (of_nat (ny m * nx m))))"
  using assms
  by (simp add: time_step_filter_def ds_sel_time_def sel_time_def Let_def length_keep_vec
      keep_vec_steps good_fraction_def sum_yx_card)

theorem time_step_filter_retains_witness:
  "length (ds_time ex_ds) = length (time ex_mask) \<and>
   data_perc ex_mask = [Fin (9/10), Fin (1/10), Fin (9/10), Fin (1/10)] \<and>
   (\<exists>ds' m'. time_step_filter (Fin (1/2)) ex_ds ex_mask = Inr (ds', m') \<and>
      ds_time ds' = [0, 2] \<and> time m' = [0, 2] \<and>
      ds_vars ds' ''red'' = Some (\<lambda>i y x. Fin (of_nat ([0, 2] ! i))))"
proof -
  have len: "length (ds_time ex_ds) = length (time ex_mask)"
    by (simp add: ex_ds_def ex_mask_def)
  from time_step_filter_retains [OF len, of "Fin (1/2)"] obtain ds' m' where
    r: "time_step_filter (Fin (1/2)) ex_ds ex_mask = Inr (ds', m')"
    and t1: "ds_time ds' = map (\<lambda>t. ds_time ex_ds ! t) [0, 2]"
    and t2: "time m' = map (\<lambda>t. time ex_mask ! t) [0, 2]"
    and v: "\<And>n. ds_vars ds' n = map_option (\<lambda>f i. f ([0, 2] ! i)) (ds_vars ex_ds n)"
    unfolding Let_def ex_kept by blast
  have "ds_time ds' = [0, 2]" using t1 by (simp add: ex_ds_def)
  moreover have "time m' = [0, 2]" using t2 by (simp add: ex_mask_def)
  moreover have "ds_vars ds' ''red'' = Some (\<lambda>i y x. Fin (of_nat ([0, 2] ! i)))"
    using v [of "''red''"] by (simp add: ex_ds_def)
  ultimately show ?thesis using len r ex_data_perc by blast
qed

subsection \<open>Masking and scaling\<close>

lemma clean_px_cases:
  "clean_px sc off v valid good = (if valid \<and> good then fadd (fmul v sc) off else NaN)"
  by (simp add: clean_px_def where_f_def)

lemma clean_band_frame:
  assumes "clean_band sc off vm g b ds = Inr ds'"
  shows "ds_time ds' = ds_time ds \<and> ds_ny ds' = ds_ny ds \<and> ds_nx ds' = ds_nx ds \<and>
         (\<forall>n. n \<noteq> b \<longrightarrow> ds_vars ds' n = ds_vars ds n)"
  using assms by (auto simp: clean_band_def split: option.splits)

lemma clean_bands_frame:
  assumes "clean_bands sc off vm g bs ds = Inr ds'"
  shows "ds_time ds' = ds_time ds \<and> ds_ny ds' = ds_ny ds \<and> ds_nx ds' = ds_nx ds \<and>
         (\<forall>n. n \<notin> set bs \<longrightarrow> ds_vars ds' n = ds_vars ds n)"
  using assms
proof (induction bs arbitrary: ds)
  case Nil
  then show ?case by simp
next
  case (Cons b bs)
  from Cons.prems obtain ds1 where
    s1: "clean_band sc off vm g b ds = Inr ds1" and s2: "clean_bands sc off vm g bs ds1 = Inr ds'"
    by (auto split: sum.splits)
  from clean_band_frame [OF s1] Cons.IH [OF s2] show ?case by simp
qed

lemma clean_bands_result:
  assumes "distinct bs"
    and "\<forall>b \<in> set bs. ds_vars ds b \<noteq> None \<and> vm b \<noteq> None"
  shows "\<exists>ds'. clean_bands sc off vm g bs ds = Inr ds' \<and>
           (\<forall>b \<in> set bs. ds_vars ds' b =
              Some (\<lambda>t y x. clean_px sc off (the (ds_vars ds b) t y x) (the (vm b) t y x) (item g t y x)))"
  using assms
proof (induction bs arbitrary: ds)
  case Nil
  then show ?case by simp
next
  case (Cons b bs)
  from Cons.prems obtain band valid where
    b: "ds_vars ds b = Some band" and v: "vm b = Some valid" by auto
  define ds1 where "ds1 = ds\<lparr>ds_vars := (ds_vars ds)(b \<mapsto>
      (\<lambda>t y x. clean_px sc off (band t y x) (valid t y x) (item g t y x)))\<rparr>"
  have s1: "clean_band sc off vm g b ds = Inr ds1"
    by (simp add: clean_band_def b v ds1_def)
  have other: "\<And>n. n \<noteq> b \<Longrightarrow> ds_vars ds1 n = ds_vars ds n"
    by (simp add: ds1_def)
  have pre: "\<forall>c \<in> set bs. ds_vars ds1 c \<noteq> None \<and> vm c \<noteq> None"
    using Cons.prems by (auto simp: ds1_def)
  from Cons.prems have dist: "distinct bs" and nb: "b \<notin> set bs" by simp_all
  from Cons.IH [OF dist pre] obtain ds' where
    s2: "clean_bands sc off vm g bs ds1 = Inr ds'"
    and r: "\<forall>c \<in> set bs. ds_vars ds' c =
        Some (\<lambda>t y x. clean_px sc off (the (ds_vars ds1 c) t y x) (the (vm c) t y x) (item g t y x))"
    by blast
  have keepb: "ds_vars ds' b = ds_vars ds1 b"
    using clean_bands_frame [OF s2] nb by simp
  have rb: "ds_vars ds' b =
      Some (\<lambda>t y x. clean_px sc off (the (ds_vars ds b) t y x) (the (vm b) t y x) (item g t y x))"
    by (simp add: keepb ds1_def b v)
  have rc: "\<forall>c \<in> set bs. ds_vars ds' c =
      Some (\<lambda>t y x. clean_px sc off (the (ds_vars ds c) t y x) (the (vm c) t y x) (item g t y x))"
  proof
    fix c assume c: "c \<in> set bs"
    with nb have "c \<noteq> b" by auto
    with r c other show "ds_vars ds' c =
      Some (\<lambda>t y x. clean_px sc off (the (ds_vars ds c) t y x) (the (vm c) t y x) (item g t y x))"
      by simp
  qed
  show ?case using s1 s2 rb rc by simp
qed

text \<open>
  Claim C3. For every scale and offset and every list of distinct bands that the dataset
  and the validity masks both hold, the cell succeeds and leaves the coordinates as they
  are; at every index the cleaned band is value times scale plus offset where the band's
  validity mask and the quality mask are both true, and NaN where either is false: the
  value is masked first, so a masked-out raw value is never scaled into the output.
\<close>

theorem scaled_masked_array_values:
  assumes "distinct bs" and "set bs \<subseteq> dom (ds_vars ds)" and "set bs \<subseteq> dom vm"
  shows "\<exists>ds'. clean_bands sc off vm g bs ds = Inr ds' \<and>
           ds_time ds' = ds_time ds \<and> ds_ny ds' = ds_ny ds \<and> ds_nx ds' = ds_nx ds \<and>
           (\<forall>b \<in> set bs. \<exists>band valid cleaned.
              ds_vars ds b = Some band \<and> vm b = Some valid \<and> ds_vars ds' b = Some cleaned \<and>
              (\<forall>t y x. cleaned t y x =
                 (if valid t y x \<and> item g t y x then fadd (fmul (band t y x) sc) off else NaN)))"
proof -
  from assms(2,3) have pre: "\<forall>b \<in> set bs. ds_vars ds b \<noteq> None \<and> vm b \<noteq> None"
    by auto
  from clean_bands_result [OF assms(1) pre] obtain ds' where
    s: "clean_bands sc off vm g bs ds = Inr ds'"
    and r: "\<forall>b \<in> set bs. ds_vars ds' b =
        Some (\<lambda>t y x. clean_px sc off (the (ds_vars ds b) t y x) (the (vm b) t y x) (item g t y x))"
    by blast
  have "\<exists>band valid cleaned.
          ds_vars ds b = Some band \<and> vm b = Some valid \<and> ds_vars ds' b = Some cleaned \<and>
          (\<forall>t y x. cleaned t y x =
             (if valid t y x \<and> item g t y x then fadd (fmul (band t y x) sc) off else NaN))"
    if b: "b \<in> set bs" for b
  proof -
    from pre b obtain band valid where
      e: "ds_vars ds b = Some band" "vm b = Some valid" by auto
    from r b e show ?thesis by (simp add: clean_px_cases)
  qed
  with s clean_bands_frame [OF s] show ?thesis by blast
qed

theorem scaled_masked_array_values_witness:
  "distinct band_names \<and> set band_names \<subseteq> dom (ds_vars ex_raw) \<and> set band_names \<subseteq> dom ex_valid \<and>
   (\<exists>ds' cleaned. scaled_masked_array ex_valid ex_good ex_raw = Inr ds' \<and>
      ds_vars ds' ''red'' = Some cleaned \<and> cleaned 0 0 0 = Fin 1 \<and> cleaned 0 0 1 = NaN)"
proof -
  have d: "distinct band_names" by (simp add: band_names_def)
  have v: "set band_names \<subseteq> dom (ds_vars ex_raw)" by (auto simp: ex_raw_def)
  have w: "set band_names \<subseteq> dom ex_valid" by (auto simp: ex_valid_def)
  have red: "''red'' \<in> set band_names" by (simp add: band_names_def)
  from scaled_masked_array_values [OF d v w, of scale offset ex_good] obtain ds' where
    s: "clean_bands scale offset ex_valid ex_good band_names ex_raw = Inr ds'"
    and r: "\<forall>b \<in> set band_names. \<exists>band valid cleaned.
        ds_vars ex_raw b = Some band \<and> ex_valid b = Some valid \<and> ds_vars ds' b = Some cleaned \<and>
        (\<forall>t y x. cleaned t y x =
           (if valid t y x \<and> item ex_good t y x then fadd (fmul (band t y x) scale) offset else NaN))"
    by blast
  from r red obtain band valid cleaned where
    b: "ds_vars ex_raw ''red'' = Some band" and m: "ex_valid ''red'' = Some valid"
    and c: "ds_vars ds' ''red'' = Some cleaned"
    and e: "\<And>t y x. cleaned t y x =
        (if valid t y x \<and> item ex_good t y x then fadd (fmul (band t y x) scale) offset else NaN)"
    by blast
  from b red have band: "band = (\<lambda>t y x. Fin 10000)" by (simp add: ex_raw_def)
  from m red have valid: "valid = (\<lambda>t y x. True)" by (simp add: ex_valid_def)
  have "cleaned 0 0 0 = Fin 1"
    by (simp add: e band valid ex_good_def scale_def offset_def)
  moreover have "cleaned 0 0 1 = NaN"
    by (simp add: e band valid ex_good_def)
  ultimately show ?thesis
    using d v w s c unfolding scaled_masked_array_def by blast
qed


subsection \<open>Normalised difference indices\<close>

lemma norm_diff_fin:
  "norm_diff (Fin a) (Fin b) =
     (if a + b \<noteq> 0 then Fin ((a - b) / (a + b))
      else if a = 0 then NaN else if 0 < a then PInf else NInf)"
proof -
  have "a - b = 2 * a" if "a + b = 0"
    using that by simp
  then show ?thesis
    by (auto simp: norm_diff_def fsub_def inf_of_sign_def sgn_if)
qed

lemma norm_diff_nan: "norm_diff NaN v = NaN \<and> norm_diff v NaN = NaN"
  by (cases v) (simp_all add: norm_diff_def fsub_def)

text \<open>
  Claim C2, as the code has it. When the dataset holds the four bands, the cell succeeds
  and MNDWI and NDCI are the normalised differences (A - B) / (A + B) of their bands at
  every index. For finite A and B with A + B not 0 the value is the quotient; where
  A + B is 0 the value is NaN only when A and B are both 0, and is plus infinity for
  positive A and minus infinity for negative A; a NaN in either band gives NaN.
\<close>

theorem band_indices_values:
  assumes "ds_vars ds ''green'' = Some g" and "ds_vars ds ''swir_2'' = Some s"
    and "ds_vars ds ''red_edge_1'' = Some e" and "ds_vars ds ''red'' = Some r"
  shows "\<exists>ds'. band_indices ds = Inr ds' \<and>
           ds_vars ds' ''MNDWI'' = Some (\<lambda>t y x. norm_diff (g t y x) (s t y x)) \<and>
           ds_vars ds' ''NDCI'' = Some (\<lambda>t y x. norm_diff (e t y x) (r t y x)) \<and>
           (\<forall>a b. norm_diff (Fin a) (Fin b) =
              (if a + b \<noteq> 0 then Fin ((a - b) / (a + b))
               else if a = 0 then NaN else if 0 < a then PInf else NInf)) \<and>
           (\<forall>v. norm_diff NaN v = NaN \<and> norm_diff v NaN = NaN)"
  using assms norm_diff_fin norm_diff_nan
  by (simp add: band_indices_def assign_norm_diff_def)

theorem band_indices_values_witness:
  "ds_vars ex_bands ''green'' = Some (\<lambda>t y x. Fin 3) \<and>
   ds_vars ex_bands ''swir_2'' = Some (\<lambda>t y x. Fin 1) \<and>
   ds_vars ex_bands ''red_edge_1'' = Some (\<lambda>t y x. Fin 1) \<and>
   ds_vars ex_bands ''red'' = Some (\<lambda>t y x. Fin 3) \<and>
   (\<exists>ds' mndwi ndci. band_indices ex_bands = Inr ds' \<and>
      ds_vars ds' ''MNDWI'' = Some mndwi \<and> mndwi 0 0 0 = Fin (1 / 2) \<and>
      ds_vars ds' ''NDCI'' = Some ndci \<and> ndci 0 0 0 = Fin (- (1 / 2))) \<and>
   norm_diff (Fin 0) (Fin 0) = NaN"
proof -
  have g: "ds_vars ex_bands ''green'' = Some (\<lambda>t y x. Fin 3)"
    and s: "ds_vars ex_bands ''swir_2'' = Some (\<lambda>t y x. Fin 1)"
    and e: "ds_vars ex_bands ''red_edge_1'' = Some (\<lambda>t y x. Fin 1)"
    and r: "ds_vars ex_bands ''red'' = Some (\<lambda>t y x. Fin 3)"
    by (simp_all add: ex_bands_def)
  from band_indices_values [OF g s e r] obtain ds' where
    ok: "band_indices ex_bands = Inr ds'"
    and m: "ds_vars ds' ''MNDWI'' = Some (\<lambda>t y x. norm_diff (Fin 3) (Fin 1))"
    and n: "ds_vars ds' ''NDCI'' = Some (\<lambda>t y x. norm_diff (Fin 1) (Fin 3))"
    and f: "\<And>a b. norm_diff (Fin a) (Fin b) =
        (if a + b \<noteq> 0 then Fin ((a - b) / (a + b))
         else if a = 0 then NaN else if 0 < a then PInf else NInf)"
    by blast
  have "norm_diff (Fin 3) (Fin 1) = Fin (1 / 2)" by (simp add: f)
  moreover have "norm_diff (Fin 1) (Fin 3) = Fin (- (1 / 2))" by (simp add: f)
  moreover have "norm_diff (Fin 0) (Fin 0) = NaN" by (simp add: f)
  ultimately show ?thesis using g s e r ok m n by simp
qed

text \<open>
  The claim as stated fails: the raw values 10000 and -10000, both masked in, are cleaned
  to 1 and -1; their sum is exactly 0 and their normalised difference is plus infinity.
\<close>

theorem norm_diff_zero_sum_counterexample:
  "clean_px scale offset (Fin 10000) True True = Fin 1 \<and>
   clean_px scale offset (Fin (- 10000)) True True = Fin (- 1) \<and>
   fadd (Fin 1) (Fin (- 1)) = Fin 0 \<and>
   norm_diff (Fin 1) (Fin (- 1)) = PInf"
  by (simp add: clean_px_def where_f_def scale_def offset_def norm_diff_def fsub_def inf_of_sign_def)

subsection \<open>Percentage of clear observations\<close>

lemma sum_time_card:
  "sum_time m y x = card {t. t < length (time m) \<and> item m t y x}"
  unfolding sum_time_def by (rule sum_list_indicator_card)

lemma percentage_clear_of_counts:
  "percentage_clear cm vm y x =
     (if sum_time vm y x = 0 \<or> sum_time vm y x < sum_time cm y x then NaN
      else Fin (100 * of_nat (sum_time cm y x) / of_nat (sum_time vm y x)))"
proof -
  let ?c = "sum_time cm y x" and ?v = "sum_time vm y x"
  show ?thesis
  proof (cases "?v = 0")
    case True
    then show ?thesis
      by (simp add: percentage_clear_def percentage_clear_raw_def where_f_def Let_def inf_of_sign_def sgn_if)
  next
    case False
    then have pos: "0 < (of_nat ?v :: rat)" by simp
    have "(100 * of_nat ?c / of_nat ?v \<le> (100::rat)) = (?c \<le> ?v)"
    proof -
      have "(100 * of_nat ?c / of_nat ?v \<le> (100::rat)) = (100 * (of_nat ?c :: rat) \<le> 100 * of_nat ?v)"
        using pos by (simp add: pos_divide_le_eq)
      also have "\<dots> = ((of_nat ?c :: rat) \<le> of_nat ?v)" by simp
      also have "\<dots> = (?c \<le> ?v)" by (simp only: of_nat_le_iff)
      finally show ?thesis .
    qed
    with False show ?thesis
      by (auto simp add: percentage_clear_def percentage_clear_raw_def where_f_def Let_def)
  qed
qed

text \<open>
  Claim C7, as the code has it. At every pixel the result is 100 times the clear count
  over the valid count where the valid count is positive and the clear count does not
  exceed it, and NaN where the valid count is 0 or the clear count exceeds the valid
  count.
\<close>

theorem percentage_clear_fraction:
  "percentage_clear cm vm y x =
     (let c = card {t. t < length (time cm) \<and> item cm t y x};
          v = card {t. t < length (time vm) \<and> item vm t y x}
      in if v = 0 \<or> v < c then NaN else Fin (100 * of_nat c / of_nat v))"
  by (simp add: percentage_clear_of_counts sum_time_card Let_def)

theorem percentage_clear_fraction_witness:
  "percentage_clear (px_series [0]) (px_series [0, 1]) 0 0 = Fin 50 \<and>
   (let c = card {t. t < length (time (px_series [0])) \<and> item (px_series [0]) t 0 0};
        v = card {t. t < length (time (px_series [0, 1])) \<and> item (px_series [0, 1]) t 0 0}
    in if v = 0 \<or> v < c then NaN else Fin (100 * of_nat c / of_nat v)) = Fin 50"
proof -
  have e: "percentage_clear (px_series [0]) (px_series [0, 1]) 0 0 = Fin 50"
    by (simp add: percentage_clear_def percentage_clear_raw_def sum_time_def px_series_def
        upt_conv_Cons where_f_def)
  from percentage_clear_fraction [of "px_series [0]" "px_series [0, 1]" 0 0] e
  show ?thesis by simp
qed

text \<open>
  The claim as stated fails where the clear count exceeds the valid count: a pixel clear
  at two dates and valid at one of them has the counts 2 and 1, and the result is NaN.
\<close>

theorem percentage_clear_fraction_counterexample:
  "sum_time (px_series [0, 1]) 0 0 = 2 \<and> sum_time (px_series [0]) 0 0 = 1 \<and>
   percentage_clear_raw (px_series [0, 1]) (px_series [0]) 0 0 = Fin 200 \<and>
   percentage_clear (px_series [0, 1]) (px_series [0]) 0 0 = NaN"
  by (simp add: percentage_clear_def percentage_clear_raw_def sum_time_def px_series_def
      upt_conv_Cons where_f_def)

text \<open>
  Claim C10. After the guard every element of the percentage image is NaN or a number
  between 0 and 100; an element whose unguarded value exceeds 100 is NaN; and a positive
  clear count over a valid count of 0, which is plus infinity before the guard, is NaN.
\<close>

theorem percentage_clear_bounded:
  "(percentage_clear cm vm y x = NaN \<or>
      (\<exists>r. percentage_clear cm vm y x = Fin r \<and> 0 \<le> r \<and> r \<le> 100)) \<and>
   (fgt (percentage_clear_raw cm vm y x) (Fin 100) \<longrightarrow> percentage_clear cm vm y x = NaN) \<and>
   (0 < sum_time cm y x \<and> sum_time vm y x = 0 \<longrightarrow>
      percentage_clear_raw cm vm y x = PInf \<and> percentage_clear cm vm y x = NaN)"
proof -
  let ?c = "sum_time cm y x" and ?v = "sum_time vm y x"
  have a: "percentage_clear cm vm y x = NaN \<or>
      (\<exists>r. percentage_clear cm vm y x = Fin r \<and> 0 \<le> r \<and> r \<le> 100)"
  proof (cases "?v = 0 \<or> ?v < ?c")
    case True
    then show ?thesis by (simp add: percentage_clear_of_counts)
  next
    case False
    then have v: "0 < ?v" and cv: "?c \<le> ?v" by simp_all
    have "(100 * of_nat ?c / of_nat ?v :: rat) \<le> 100"
      using v cv by (simp add: pos_divide_le_eq)
    moreover have "0 \<le> (100 * of_nat ?c / of_nat ?v :: rat)" by simp
    ultimately show ?thesis using False by (simp add: percentage_clear_of_counts)
  qed
  have b: "fgt (percentage_clear_raw cm vm y x) (Fin 100) \<longrightarrow> percentage_clear cm vm y x = NaN"
    by (cases "percentage_clear_raw cm vm y x")
      (auto simp: percentage_clear_def Let_def where_f_def fgt_def)
  have c: "0 < ?c \<and> ?v = 0 \<longrightarrow>
      percentage_clear_raw cm vm y x = PInf \<and> percentage_clear cm vm y x = NaN"
    by (simp add: percentage_clear_def percentage_clear_raw_def Let_def where_f_def inf_of_sign_def)
  from a b c show ?thesis by blast
qed

theorem percentage_clear_bounded_witness:
  "0 < sum_time (px_series [0]) 0 0 \<and> sum_time (px_series []) 0 0 = 0 \<and>
   fgt (percentage_clear_raw (px_series [0]) (px_series []) 0 0) (Fin 100) \<and>
   percentage_clear_raw (px_series [0]) (px_series []) 0 0 = PInf \<and>
   percentage_clear (px_series [0]) (px_series []) 0 0 = NaN"
proof -
  have c: "0 < sum_time (px_series [0]) 0 0" and v: "sum_time (px_series []) 0 0 = 0"
    by (simp_all add: sum_time_def px_series_def upt_conv_Cons)
  from percentage_clear_bounded [of "px_series [0]" "px_series []" 0 0] c v
  have r: "percentage_clear_raw (px_series [0]) (px_series []) 0 0 = PInf"
    and n: "percentage_clear (px_series [0]) (px_series []) 0 0 = NaN"
    by blast+
  have "fgt (percentage_clear_raw (px_series [0]) (px_series []) 0 0) (Fin 100)"
    by (simp add: r fgt_def)
  with c v r n show ?thesis by simp
qed

subsection \<open>Water pixels\<close>

lemma fgt_zero_not_nan: "fgt v (Fin 0) \<Longrightarrow> \<not> is_nan v"
  by (cases v) (simp_all add: fgt_def)

lemma is_nan_where_water:
  "is_nan (where_f v (fgt m (Fin 0))) = (\<not> (fgt m (Fin 0) \<and> \<not> is_nan v))"
  by (simp add: where_f_def)

lemma fadd_zero_right: "fadd a (Fin 0) = a"
  by (cases a) simp_all

lemma foldl_fadd_skip:
  "foldl fadd a (map (\<lambda>p. if is_nan (g p) then Fin 0 else g p) ps) =
   foldl fadd a (map g (filter (\<lambda>p. \<not> is_nan (g p)) ps))"
  by (induction ps arbitrary: a) (simp_all add: fadd_zero_right)

lemma sum_list_skip_length:
  "sum_list (map (\<lambda>p. if Q p then 0 else (1::nat)) ps) = length (filter (\<lambda>p. \<not> Q p) ps)"
  by (induction ps) simp_all

lemma sum_list_concat_map:
  "sum_list (concat (map g ys)) = sum_list (map (\<lambda>y. sum_list (g y)) ys)"
  for g :: "'a \<Rightarrow> nat list"
  by (induction ys) simp_all

lemma sum_list_pixels:
  "sum_list (map (\<lambda>(y, x). f y x) (pixels h w)) =
   sum_list (map (\<lambda>y. sum_list (map (\<lambda>x. f y x) [0..<w])) [0..<h])"
  for f :: "nat \<Rightarrow> nat \<Rightarrow> nat"
  by (simp add: pixels_def map_concat sum_list_concat_map o_def)

lemma count_yx_card:
  "count_yx f h w t = card {(y, x). y < h \<and> x < w \<and> \<not> is_nan (f t y x)}"
proof -
  have "count_yx f h w t =
      sum_list (map (\<lambda>(y, x). if \<not> is_nan (f t y x) then 1 else 0) (pixels h w))"
    unfolding count_yx_def by (rule arg_cong [where f = sum_list]) auto
  then show ?thesis
    by (simp add: sum_list_pixels sum_list_indicator_card sum_list_rows_card)
qed

lemma count_yx_length:
  "count_yx f h w t = length (filter (\<lambda>(y, x). \<not> is_nan (f t y x)) (pixels h w))"
proof -
  have "count_yx f h w t = sum_list (map (\<lambda>p. if (case p of (y, x) \<Rightarrow> is_nan (f t y x)) then 0 else 1) (pixels h w))"
    unfolding count_yx_def by (rule arg_cong [where f = sum_list]) auto
  also have "\<dots> = length (filter (\<lambda>p. \<not> (case p of (y, x) \<Rightarrow> is_nan (f t y x))) (pixels h w))"
    by (rule sum_list_skip_length)
  also have "\<dots> = length (filter (\<lambda>(y, x). \<not> is_nan (f t y x)) (pixels h w))"
    by (rule arg_cong [where f = length], rule filter_cong) auto
  finally show ?thesis .
qed

lemma nansum_yx_filter:
  "nansum_yx f h w t =
   foldl fadd (Fin 0) (map (\<lambda>(y, x). f t y x) (filter (\<lambda>(y, x). \<not> is_nan (f t y x)) (pixels h w)))"
proof -
  let ?g = "\<lambda>p. case p of (y, x) \<Rightarrow> f t y x"
  have "nansum_yx f h w t = foldl fadd (Fin 0) (map (\<lambda>p. if is_nan (?g p) then Fin 0 else ?g p) (pixels h w))"
    unfolding nansum_yx_def by (rule arg_cong [where f = "foldl fadd (Fin 0)"]) auto
  also have "\<dots> = foldl fadd (Fin 0) (map ?g (filter (\<lambda>p. \<not> is_nan (?g p)) (pixels h w)))"
    by (rule foldl_fadd_skip)
  also have "filter (\<lambda>p. \<not> is_nan (?g p)) (pixels h w) = filter (\<lambda>(y, x). \<not> is_nan (f t y x)) (pixels h w)"
    by (rule filter_cong) auto
  finally show ?thesis .
qed

lemma nanmean_water:
  "nanmean_yx (\<lambda>t y x. where_f (c t y x) (fgt (w t y x) (Fin 0))) h n t =
     (let contributing = filter (\<lambda>(y, x). fgt (w t y x) (Fin 0) \<and> \<not> is_nan (c t y x)) (pixels h n)
      in fdiv (foldl fadd (Fin 0) (map (\<lambda>(y, x). c t y x) contributing))
              (Fin (of_nat (length contributing))))"
proof -
  let ?f = "\<lambda>t y x. where_f (c t y x) (fgt (w t y x) (Fin 0))"
  let ?sel = "filter (\<lambda>(y, x). fgt (w t y x) (Fin 0) \<and> \<not> is_nan (c t y x)) (pixels h n)"
  have sel: "filter (\<lambda>(y, x). \<not> is_nan (?f t y x)) (pixels h n) = ?sel"
    by (rule filter_cong) (auto simp: is_nan_where_water)
  have vals: "map (\<lambda>(y, x). ?f t y x) ?sel = map (\<lambda>(y, x). c t y x) ?sel"
    by (rule map_cong) (auto simp: where_f_def)
  show ?thesis
    by (simp add: nanmean_yx_def nansum_yx_filter count_yx_length sel vals Let_def)
qed

lemma watercount_water:
  "count_yx (\<lambda>t y x. where_f (w t y x) (fgt (w t y x) (Fin 0))) h n t =
     card {(y, x). y < h \<and> x < n \<and> fgt (w t y x) (Fin 0)}"
proof -
  have "\<And>y x. (\<not> is_nan (where_f (w t y x) (fgt (w t y x) (Fin 0)))) = fgt (w t y x) (Fin 0)"
    using fgt_zero_not_nan by (auto simp: is_nan_where_water)
  then show ?thesis by (simp add: count_yx_card)
qed

text \<open>
  Claim C9, as the code has it. When the dataset holds MNDWI and NDCI, the water count
  of a time step is the number of pixels whose MNDWI is strictly greater than 0; the
  average NDCI of a time step is the sum over the pixels whose MNDWI is strictly greater
  than 0 and whose NDCI is not NaN, divided by the number of these pixels; and a NaN
  MNDWI is not greater than 0, so such a pixel is in neither.
\<close>

theorem water_selection:
  assumes "ds_vars ds ''MNDWI'' = Some w" and "ds_vars ds ''NDCI'' = Some c"
  shows "ds_s2_watercount ds =
           Inr (map (\<lambda>t. card {(y, x). y < ds_ny ds \<and> x < ds_nx ds \<and> fgt (w t y x) (Fin 0)})
                  [0..<length (ds_time ds)]) \<and>
         average_ndci ds =
           Inr (map (\<lambda>t.
                  let contributing = filter (\<lambda>(y, x). fgt (w t y x) (Fin 0) \<and> \<not> is_nan (c t y x))
                                       (pixels (ds_ny ds) (ds_nx ds))
                  in fdiv (foldl fadd (Fin 0) (map (\<lambda>(y, x). c t y x) contributing))
                          (Fin (of_nat (length contributing))))
                  [0..<length (ds_time ds)]) \<and>
         \<not> fgt NaN (Fin 0)"
proof -
  have "\<not> fgt NaN (Fin 0)" by (simp add: fgt_def)
  with assms show ?thesis
    by (simp add: ds_s2_watercount_def average_ndci_def ds_s2_water_def watercount_water
        nanmean_water)
qed

lemma ex_lake_run:
  "ds_s2_watercount ex_lake = Inr [1] \<and> average_ndci ex_lake = Inr [Fin (1 / 5)]"
  by (simp add: ds_s2_watercount_def average_ndci_def ds_s2_water_def ex_lake_def
      ex_lake_mndwi_def ex_lake_ndci_def count_yx_def nanmean_yx_def nansum_yx_def pixels_def
      where_f_def fgt_def upt_conv_Cons)

theorem water_selection_witness:
  "ds_vars ex_lake ''MNDWI'' = Some ex_lake_mndwi \<and> ds_vars ex_lake ''NDCI'' = Some ex_lake_ndci \<and>
   ds_s2_watercount ex_lake = Inr [1] \<and> average_ndci ex_lake = Inr [Fin (1 / 5)] \<and>
   card {(y, x). y < ds_ny ex_lake \<and> x < ds_nx ex_lake \<and> fgt (ex_lake_mndwi 0 y x) (Fin 0)} = 1"
proof -
  have m: "ds_vars ex_lake ''MNDWI'' = Some ex_lake_mndwi"
    and n: "ds_vars ex_lake ''NDCI'' = Some ex_lake_ndci"
    by (simp_all add: ex_lake_def)
  have len: "length (ds_time ex_lake) = 1" by (simp add: ex_lake_def)
  from water_selection [OF m n] have
    "ds_s2_watercount ex_lake =
       Inr (map (\<lambda>t. card {(y, x). y < ds_ny ex_lake \<and> x < ds_nx ex_lake \<and> fgt (ex_lake_mndwi t y x) (Fin 0)})
              [0..<length (ds_time ex_lake)])"
    by blast
  with ex_lake_run have
    "card {(y, x). y < ds_ny ex_lake \<and> x < ds_nx ex_lake \<and> fgt (ex_lake_mndwi 0 y x) (Fin 0)} = 1"
    by (simp add: len)
  with m n ex_lake_run show ?thesis by simp
qed

text \<open>
  The claim as stated fails for the average: both pixels have an MNDWI greater than 0
  and are counted as water, but the first has a NaN NDCI, and the average is the NDCI of
  the second pixel alone.
\<close>

theorem water_selection_counterexample:
  "ds_vars ex_water ''MNDWI'' = Some (\<lambda>t y x. Fin (1 / 2)) \<and> fgt (Fin (1 / 2)) (Fin 0) \<and>
   ds_vars ex_water ''NDCI'' = Some ex_water_ndci \<and>
   ex_water_ndci 0 0 0 = NaN \<and> ex_water_ndci 0 0 1 = Fin (1 / 5) \<and>
   ds_s2_watercount ex_water = Inr [2] \<and> average_ndci ex_water = Inr [Fin (1 / 5)]"
  by (simp add: ds_s2_watercount_def average_ndci_def ds_s2_water_def ex_water_def
      ex_water_ndci_def count_yx_def nanmean_yx_def nansum_yx_def pixels_def where_f_def
      fgt_def upt_conv_Cons)

subsection \<open>Rolling median\<close>

lemma fle_trans: "fle a b \<Longrightarrow> fle b c \<Longrightarrow> fle a c"
  by (cases a; cases b; cases c) simp_all

lemma fle_total: "\<not> is_nan a \<Longrightarrow> \<not> is_nan b \<Longrightarrow> fle a b \<or> fle b a"
  by (cases a; cases b) auto

lemma mset_insert_f: "mset (insert_f v us) = add_mset v (mset us)"
  by (induction us) simp_all

lemma mset_sort_f: "mset (sort_f vs) = mset vs"
  unfolding sort_f_def by (induction vs) (simp_all add: mset_insert_f)

lemma set_insert_f: "set (insert_f v us) = insert v (set us)"
  by (induction us) auto

lemma sorted_insert_f:
  assumes "sorted_wrt fle us" and "\<not> is_nan v" and "\<forall>u \<in> set us. \<not> is_nan u"
  shows "sorted_wrt fle (insert_f v us)"
  using assms
proof (induction us)
  case Nil
  then show ?case by simp
next
  case (Cons u us)
  show ?case
  proof (cases "fle v u")
    case True
    with Cons.prems show ?thesis by (auto intro: fle_trans)
  next
    case False
    with Cons.prems fle_total [of v u] have uv: "fle u v" by auto
    from Cons have "sorted_wrt fle (insert_f v us)" by simp
    with False uv Cons.prems show ?thesis by (auto simp: set_insert_f)
  qed
qed

lemma sorted_sort_f:
  "\<forall>v \<in> set vs. \<not> is_nan v \<Longrightarrow> sorted_wrt fle (sort_f vs)"
proof (induction vs)
  case Nil
  then show ?case by (simp add: sort_f_def)
next
  case (Cons v vs)
  then have s: "sorted_wrt fle (sort_f vs)" by simp
  have "set (sort_f vs) = set vs" using mset_sort_f [of vs] by (metis set_mset_mset)
  with Cons.prems have n: "\<forall>u \<in> set (sort_f vs). \<not> is_nan u" by simp
  from Cons.prems have "\<not> is_nan v" by simp
  from sorted_insert_f [OF s this n] show ?case by (simp add: sort_f_def)
qed

lemma filter_upt_interval:
  "filter (\<lambda>j. a \<le> j \<and> j < b) [0..<n] = [a..<min n b]"
proof (induction n)
  case 0
  then show ?case by simp
next
  case (Suc n)
  show ?case
  proof (cases "a \<le> n \<and> n < b")
    case True
    then have "min (Suc n) b = Suc n" and "min n b = n" by simp_all
    with Suc True show ?thesis by simp
  next
    case False
    then have "[a..<min (Suc n) b] = [a..<min n b]"
      by (cases "a \<le> n") (auto simp: min_def)
    with Suc False show ?thesis by simp
  qed
qed

lemma window_centered:
  "window w xs i = map (\<lambda>j. xs ! j) (filter (\<lambda>j. i \<le> j + w div 2 \<and> j \<le> i + w div 2) [0..<length xs])"
proof -
  have "(\<lambda>j. i \<le> j + w div 2 \<and> j \<le> i + w div 2) = (\<lambda>j. i - w div 2 \<le> j \<and> j < i + w div 2 + 1)"
    by (rule ext) auto
  then show ?thesis
    by (simp add: window_def filter_upt_interval)
qed


lemma median_f_cases:
  "median_f vs =
     (if vs = [] then NaN
      else if odd (length vs) then sort_f vs ! (length vs div 2)
      else fdiv (fadd (sort_f vs ! (length vs div 2 - 1)) (sort_f vs ! (length vs div 2))) (Fin 2))"
proof -
  have len: "length (sort_f vs) = length vs"
    using mset_sort_f [of vs] by (metis size_mset)
  show ?thesis
  proof (cases "vs = []")
    case True
    then show ?thesis by (simp add: median_f_def sort_f_def)
  next
    case False
    with len have "sort_f vs \<noteq> []" by auto
    with False show ?thesis by (simp add: median_f_def Let_def len)
  qed
qed

text \<open>
  Claim C6. For an odd window size w and a minimum number of periods m, the output has
  the length of the series (no position is dropped); the output at a position is the
  median of the samples that are not NaN among the positions at distance at most w div 2
  that exist, when at least m such samples are present, and NaN otherwise. The median is
  taken on the samples in ascending order (a permutation of the samples): the middle one
  for an odd number of samples, the mean of the two middle ones for an even number.
\<close>

theorem rolling_median_centered:
  assumes "odd w"
  shows "length (rolling_median w m xs) = length xs \<and>
         (\<forall>i < length xs.
            rolling_median w m xs ! i =
              (let samples = filter (\<lambda>v. \<not> is_nan v)
                     (map (\<lambda>j. xs ! j)
                        (filter (\<lambda>j. i \<le> j + w div 2 \<and> j \<le> i + w div 2) [0..<length xs]))
               in if m \<le> length samples then median_f samples else NaN)) \<and>
         (\<forall>vs. mset (sort_f vs) = mset vs \<and>
               ((\<forall>v \<in> set vs. \<not> is_nan v) \<longrightarrow> sorted_wrt fle (sort_f vs))) \<and>
         (\<forall>vs. median_f vs =
               (if vs = [] then NaN
                else if odd (length vs) then sort_f vs ! (length vs div 2)
                else fdiv (fadd (sort_f vs ! (length vs div 2 - 1)) (sort_f vs ! (length vs div 2)))
                       (Fin 2)))"
proof -
  have a: "length (rolling_median w m xs) = length xs"
    by (simp add: rolling_median_def)
  have b: "\<forall>i < length xs.
      rolling_median w m xs ! i =
        (let samples = filter (\<lambda>v. \<not> is_nan v)
               (map (\<lambda>j. xs ! j)
                  (filter (\<lambda>j. i \<le> j + w div 2 \<and> j \<le> i + w div 2) [0..<length xs]))
         in if m \<le> length samples then median_f samples else NaN)"
    by (simp add: rolling_median_def window_centered)
  have c: "\<forall>vs. mset (sort_f vs) = mset vs \<and>
      ((\<forall>v \<in> set vs. \<not> is_nan v) \<longrightarrow> sorted_wrt fle (sort_f vs))"
    using mset_sort_f sorted_sort_f by blast
  from a b c median_f_cases show ?thesis by blast
qed

lemma rolling_example:
  "rolling_median 3 1 [Fin 1, NaN, Fin 3] = [Fin 1, Fin 2, Fin 3] \<and>
   rolling_median 3 2 [Fin 1, NaN, Fin 3] = [NaN, Fin 2, NaN] \<and>
   waterarea_median [5, 1, 3, 9] = [Fin 3, Fin 3, Fin 3, Fin 6]"
  by (simp add: waterarea_median_def rolling_median_def window_def median_f_def sort_f_def
      upt_conv_Cons Let_def)

theorem rolling_median_centered_witness:
  "odd (3::nat) \<and>
   rolling_median 3 1 [Fin 1, NaN, Fin 3] = [Fin 1, Fin 2, Fin 3] \<and>
   rolling_median 3 2 [Fin 1, NaN, Fin 3] = [NaN, Fin 2, NaN] \<and>
   waterarea_median [5, 1, 3, 9] = [Fin 3, Fin 3, Fin 3, Fin 6] \<and>
   length (rolling_median 3 1 [Fin 1, NaN, Fin 3]) = length [Fin 1, NaN, Fin 3] \<and>
   sorted_wrt fle (sort_f [Fin 3, Fin 1])"
proof -
  have o: "odd (3::nat)" by simp
  from rolling_median_centered [OF o, of 1 "[Fin 1, NaN, Fin 3]"] have
    l: "length (rolling_median 3 1 [Fin 1, NaN, Fin 3]) = length [Fin 1, NaN, Fin 3]"
    and s: "(\<forall>v \<in> set [Fin 3, Fin 1]. \<not> is_nan v) \<longrightarrow> sorted_wrt fle (sort_f [Fin 3, Fin 1])"
    by blast+
  from s have "sorted_wrt fle (sort_f [Fin 3, Fin 1])" by simp
  with o l rolling_example show ?thesis by blast
qed

subsection \<open>Categorical quality mask\<close>

lemma map_of_member:
  "distinct (map fst enum) \<Longrightarrow> (map_of enum c = Some l) = ((c, l) \<in> set enum)"
  by (rule map_of_eq_Some_iff)

text \<open>
  Claim C4. For an enumeration with one label per code: if a requested label is not a
  label of the enumeration, the construction fails with UnknownCategoryError; otherwise
  it returns a mask on the coordinates of the quality array that is true exactly at the
  pixels whose code has a label of the requested set.
\<close>

theorem enum_to_bool_checks_labels:
  assumes "distinct (map fst enum)"
  shows "(\<not> categories \<subseteq> snd ` set enum \<longrightarrow>
            enum_to_bool enum qa categories = Inl UnknownCategoryError) \<and>
         (categories \<subseteq> snd ` set enum \<longrightarrow>
            (\<exists>m. enum_to_bool enum qa categories = Inr m \<and>
               time m = time qa \<and> ny m = ny qa \<and> nx m = nx qa \<and>
               (\<forall>t y x. item m t y x =
                  (\<exists>l. map_of enum (item qa t y x) = Some l \<and> l \<in> categories))))"
proof -
  have "(\<exists>(c, l) \<in> set enum. c = item qa t y x \<and> l \<in> categories) =
        (\<exists>l. map_of enum (item qa t y x) = Some l \<and> l \<in> categories)" for t y x
    using map_of_member [OF assms] by auto
  then show ?thesis by (simp add: enum_to_bool_def)
qed

lemma scl_distinct: "distinct (map fst scl)"
  by (simp add: scl_def)

theorem enum_to_bool_checks_labels_witness:
  "distinct (map fst scl) \<and>
   \<not> {''water'', ''vegetaton''} \<subseteq> snd ` set scl \<and>
   enum_to_bool scl ex_codes {''water'', ''vegetaton''} = Inl UnknownCategoryError \<and>
   {''water'', ''vegetation''} \<subseteq> snd ` set scl \<and>
   (\<exists>m. enum_to_bool scl ex_codes {''water'', ''vegetation''} = Inr m \<and>
      item m 0 0 0 \<and> \<not> item m 0 0 1 \<and> item m 0 0 2)"
proof -
  have bad: "\<not> {''water'', ''vegetaton''} \<subseteq> snd ` set scl" by (simp add: scl_def)
  have good: "{''water'', ''vegetation''} \<subseteq> snd ` set scl" by (simp add: scl_def)
  from enum_to_bool_checks_labels [OF scl_distinct, of "{''water'', ''vegetaton''}" ex_codes] bad
  have e: "enum_to_bool scl ex_codes {''water'', ''vegetaton''} = Inl UnknownCategoryError"
    by blast
  from enum_to_bool_checks_labels [OF scl_distinct, of "{''water'', ''vegetation''}" ex_codes] good
  obtain m where
    r: "enum_to_bool scl ex_codes {''water'', ''vegetation''} = Inr m"
    and i: "\<And>t y x. item m t y x =
        (\<exists>l. map_of scl (item ex_codes t y x) = Some l \<and> l \<in> {''water'', ''vegetation''})"
    by blast
  have "item m 0 0 0" and "\<not> item m 0 0 1" and "item m 0 0 2"
    by (simp_all add: i ex_codes_def scl_def)
  with scl_distinct bad e good r show ?thesis by blast
qed

text \<open>
  Claim C8. For label sets S' and S of the enumeration with S' a subset of S, both masks
  are built, and every position that is true in the mask of S' is true in the mask of S.
\<close>

theorem enum_to_bool_monotone:
  assumes "S' \<subseteq> S" and "S \<subseteq> snd ` set enum"
  shows "\<exists>m' m. enum_to_bool enum qa S' = Inr m' \<and> enum_to_bool enum qa S = Inr m \<and>
           (\<forall>t y x. item m' t y x \<longrightarrow> item m t y x)"
proof -
  from assms have "S' \<subseteq> snd ` set enum" by blast
  with assms show ?thesis by (auto simp: enum_to_bool_def)
qed

theorem enum_to_bool_monotone_witness:
  "{''water''} \<subseteq> {''water'', ''vegetation''} \<and> {''water'', ''vegetation''} \<subseteq> snd ` set scl \<and>
   (\<exists>m' m. enum_to_bool scl ex_codes {''water''} = Inr m' \<and>
      enum_to_bool scl ex_codes {''water'', ''vegetation''} = Inr m \<and>
      item m' 0 0 0 \<and> item m 0 0 0 \<and> \<not> item m' 0 0 2 \<and> item m 0 0 2)"
proof -
  have sub: "{''water''} \<subseteq> {''water'', ''vegetation''}" by simp
  have good: "{''water'', ''vegetation''} \<subseteq> snd ` set scl" by (simp add: scl_def)
  from enum_to_bool_monotone [OF sub good, of ex_codes] obtain m' m where
    a: "enum_to_bool scl ex_codes {''water''} = Inr m'"
    and b: "enum_to_bool scl ex_codes {''water'', ''vegetation''} = Inr m"
    and c: "\<And>t y x. item m' t y x \<Longrightarrow> item m t y x"
    by blast
  from a have m': "item m' 0 0 0" "\<not> item m' 0 0 2"
    by (auto simp: enum_to_bool_def scl_def ex_codes_def split: if_splits)
  from b have m2: "item m 0 0 2"
    by (auto simp: enum_to_bool_def scl_def ex_codes_def split: if_splits)
  from c m' have "item m 0 0 0" by blast
  with sub good a b m' m2 show ?thesis by blast
qed

end
